theory Spec2Isabelle
  imports Main "HOL-Library.Word"
begin

section \<open>Row indices, bitmaps and values\<close>

text \<open>
  A row index is a Go \<^verbatim>\<open>uint32\<close>. The bitmap primitive (package
  \<^verbatim>\<open>github.com/kelindar/bitmap\<close>) is an external collaborator; it is modelled by
  the set of its set bits. The correspondence used throughout:
  \<^item> \<^verbatim>\<open>b.Set(x)\<close> is \<open>insert x b\<close>, \<^verbatim>\<open>b.Contains(x)\<close> is \<open>x \<in> b\<close>;
  \<^item> \<^verbatim>\<open>b.Clear()\<close> is \<open>{}\<close>, \<^verbatim>\<open>a.Clone(&b)\<close> copies the set;
  \<^item> \<^verbatim>\<open>a.Or(b)\<close>, \<^verbatim>\<open>a.And(b)\<close>, \<^verbatim>\<open>a.AndNot(b)\<close> are \<open>a \<union> b\<close>, \<open>a \<inter> b\<close>, \<open>a - b\<close>;
  \<^item> \<^verbatim>\<open>b.Count()\<close> is \<open>card b\<close>, \<^verbatim>\<open>b.Max()\<close> is \<open>Max b\<close> when \<open>b \<noteq> {}\<close>;
  \<^item> \<^verbatim>\<open>b.Range(f)\<close> and \<^verbatim>\<open>b.Filter(f)\<close> visit the set bits in ascending order.
  The test \<^verbatim>\<open>len(b) == 0\<close> of the source is read as \<open>b = {}\<close>: a bitmap of
  zero words and a bitmap whose words are all zero hold the same set, and the guarded
  code only performs set operations with \<open>b\<close>, which are the identity for both.
\<close>

type_synonym index = "32 word"
type_synonym bitmap = "index set"

text \<open>Go's \<^verbatim>\<open>interface{}\<close> values: the dynamic types the model distinguishes.\<close>

datatype val = VString string | VInt64 "64 word" | VBool bool

text \<open>A run-time panic of the Go program (it unwinds the calling goroutine).\<close>

datatype fault =
    TypeAssertion    \<comment> \<open>\<^verbatim>\<open>v.(string)\<close> on a value that is not a string\<close>
  | IndexOutOfRange  \<comment> \<open>slice index out of range\<close>

text \<open>The error value built by \<^verbatim>\<open>fmt.Errorf\<close> in \<^verbatim>\<open>cursorFor\<close>, with the column name.\<close>

datatype error = ColumnDoesNotExist string

datatype UpdateKind = UpdatePut | UpdateAdd

record Update =
  Kind :: UpdateKind
  Index :: index
  Value :: val

section \<open>Columns and the collection\<close>

text \<open>
  Modelled from the spec: the \<^verbatim>\<open>Column\<close> interface and its implementations are not
  part of the sources. A column is a typed sequence indexed by row position that carries
  its own presence bitmap; it is modelled as a partial map from row index to value, whose
  domain is the presence bitmap \<open>E(c)\<close>.
\<close>

type_synonym Column = "index \<rightharpoonup> val"

definition Value_col :: "Column \<Rightarrow> index \<Rightarrow> val option" where
  \<comment> \<open>Modelled from the spec: \<^verbatim>\<open>value(idx) \<rightarrow> (Any, bool)\<close>; \<open>None\<close> is \<^verbatim>\<open>ok = false\<close>.\<close>
  "Value_col c x = c x"

definition Intersect :: "Column \<Rightarrow> bitmap \<Rightarrow> bitmap" where
  \<comment> \<open>Modelled from the spec: Intersect = AND of the presence bitmap into the argument.\<close>
  "Intersect c bm = bm \<inter> dom c"

definition Difference :: "Column \<Rightarrow> bitmap \<Rightarrow> bitmap" where
  \<comment> \<open>Modelled from the spec: Difference = AND-NOT.\<close>
  "Difference c bm = bm - dom c"

definition Union_col :: "Column \<Rightarrow> bitmap \<Rightarrow> bitmap" where
  \<comment> \<open>Modelled from the spec: Union = OR.\<close>
  "Union_col c bm = bm \<union> dom c"

definition DeleteMany :: "bitmap \<Rightarrow> Column \<Rightarrow> Column" where
  \<comment> \<open>Modelled from the spec: bulk delete given a bitmap of indices.\<close>
  "DeleteMany bm c = c |` (- bm)"

definition Grow :: "index \<Rightarrow> Column \<Rightarrow> Column" where
  \<comment> \<open>Modelled from the spec: grow to accommodate an index; storage capacity only,
      the stored rows do not change.\<close>
  "Grow mx c = c"

fun add_val :: "val option \<Rightarrow> val \<Rightarrow> val" where
  \<comment> \<open>Modelled from the spec: Add increments the current stored value by the amount
      (Go integer addition wraps). The spec leaves Add on an absent or non-numeric value
      open; the model stores the amount then. No result below depends on this choice.\<close>
  "add_val (Some (VInt64 a)) (VInt64 b) = VInt64 (a + b)"
| "add_val _ b = b"

definition apply_update :: "Column \<Rightarrow> Update \<Rightarrow> Column" where
  \<comment> \<open>Modelled from the spec: Put stores the value regardless of a previous value, Add
      increments the stored value; either makes the row present.\<close>
  "apply_update c u =
     (case Kind u of
        UpdatePut \<Rightarrow> c(Index u \<mapsto> Value u)
      | UpdateAdd \<Rightarrow> c(Index u \<mapsto> add_val (c (Index u)) (Value u)))"

definition UpdateMany :: "Update list \<Rightarrow> Column \<Rightarrow> Column" where
  \<comment> \<open>Modelled from the spec: bulk apply of an ordered update list, in enqueue order.\<close>
  "UpdateMany us c = foldl apply_update c us"

text \<open>
  Modelled from the spec: the \<^verbatim>\<open>Collection\<close> is not part of the sources. It owns the
  \<open>fill\<close> bitmap of live rows and the column registry, a mapping from column name to the
  base column followed by the computed columns registered under the same name. Columns
  are shared mutable objects: the registry and the transaction's cache hold references
  into \<open>heap\<close>. The lock around \<open>fill\<close> has no effect in this sequential model.
\<close>

type_synonym colref = nat

record Collection =
  fill :: bitmap
  cols :: "(string \<times> colref list) list"
  heap :: "colref \<Rightarrow> Column"

definition cols_Load :: "Collection \<Rightarrow> string \<Rightarrow> colref option" where
  \<comment> \<open>Modelled from the spec: \<^verbatim>\<open>column_load(name) \<rightarrow> (Column, bool)\<close>, the base column.\<close>
  "cols_Load own columnName =
     (case map_of (cols own) columnName of
        Some (c # cs) \<Rightarrow> Some c
      | _ \<Rightarrow> None)"

definition cols_LoadWithIndex :: "Collection \<Rightarrow> string \<Rightarrow> colref list \<times> bool" where
  \<comment> \<open>Modelled from the spec: the base column together with any computed columns
      registered under the same name.\<close>
  "cols_LoadWithIndex own columnName =
     (case map_of (cols own) columnName of
        Some cs \<Rightarrow> (cs, True)
      | None \<Rightarrow> ([], False))"

definition cols_Range :: "Collection \<Rightarrow> colref list" where
  \<comment> \<open>Modelled from the spec: iterate every registered column.\<close>
  "cols_Range own = concat (map snd (cols own))"

definition expireColumn :: string where
  \<comment> \<open>Modelled from the spec: the reserved column name for the per-row TTL; the constant
      is declared outside the sources.\<close>
  "expireColumn = ''expire''"

section \<open>The transaction\<close>

record updateQueue =
  name :: string
  update :: "Update list"

text \<open>
  \<^verbatim>\<open>columnCache\<close>: the fields \<^verbatim>\<open>name\<close> and \<^verbatim>\<open>col\<close> of the source, renamed because
  \<open>name\<close> is a field of \<open>updateQueue\<close> already.
\<close>

record columnCache =
  cache_name :: string
  cache_col :: colref

text \<open>
  \<^verbatim>\<open>Txn\<close>. The source holds a pointer to the owning collection; the model carries the
  collection inside the transaction record, so that every operation returns the
  transaction together with the collection as it has left it.
\<close>

record Txn =
  owner :: Collection
  index :: bitmap
  deletes :: bitmap
  inserts :: bitmap
  updates :: "updateQueue list"
  columns :: "columnCache list"

definition newTxn :: Txn where
  \<comment> \<open>\<^verbatim>\<open>txns.New\<close>: a fresh transaction of the pool, with empty buffers. Its owner
      pointer is nil until \<^verbatim>\<open>aquireTxn\<close> sets it; the model puts a collection with
      no row and no column there.\<close>
  "newTxn =
     \<lparr>owner = \<lparr>fill = {}, cols = [], heap = (\<lambda>r. Map.empty)\<rparr>,
      index = {}, deletes = {}, inserts = {}, updates = [], columns = []\<rparr>"

definition aquireTxn :: "Collection \<Rightarrow> Txn \<Rightarrow> Txn" where
  \<comment> \<open>\<^verbatim>\<open>aquireTxn\<close>; the second argument is the transaction \<^verbatim>\<open>txns.Get()\<close> returns.\<close>
  "aquireTxn own txn = txn\<lparr>owner := own, columns := [], index := fill own\<rparr>"

definition columnAt :: "string \<Rightarrow> Txn \<Rightarrow> colref option \<times> Txn" where
  "columnAt columnName txn =
     (case find (\<lambda>v. cache_name v = columnName) (columns txn) of
        Some v \<Rightarrow> (Some (cache_col v), txn)
      | None \<Rightarrow>
          (case cols_Load (owner txn) columnName of
             None \<Rightarrow> (None, txn)
           | Some column \<Rightarrow>
               (Some column,
                txn\<lparr>columns := columns txn @ [\<lparr>cache_name = columnName, cache_col = column\<rparr>]\<rparr>)))"

subsection \<open>Filters\<close>

definition With_step :: "Txn \<Rightarrow> string \<Rightarrow> Txn" where
  \<comment> \<open>The body shared by the primary column and each extra column of \<^verbatim>\<open>With\<close>.\<close>
  "With_step txn column =
     (case columnAt column txn of
        (Some idx, t) \<Rightarrow> t\<lparr>index := Intersect (heap (owner t) idx) (index t)\<rparr>
      | (None, t) \<Rightarrow> t\<lparr>index := {}\<rparr>)"

definition With :: "string \<Rightarrow> string list \<Rightarrow> Txn \<Rightarrow> Txn" where
  "With column extra txn = foldl With_step (With_step txn column) extra"

definition Without_step :: "Txn \<Rightarrow> string \<Rightarrow> Txn" where
  "Without_step txn column =
     (case columnAt column txn of
        (Some idx, t) \<Rightarrow> t\<lparr>index := Difference (heap (owner t) idx) (index t)\<rparr>
      | (None, t) \<Rightarrow> t)"

definition Without :: "string \<Rightarrow> string list \<Rightarrow> Txn \<Rightarrow> Txn" where
  "Without column extra txn = foldl Without_step (Without_step txn column) extra"

definition Union_step :: "Txn \<Rightarrow> string \<Rightarrow> Txn" where
  "Union_step txn column =
     (case columnAt column txn of
        (Some idx, t) \<Rightarrow> t\<lparr>index := Union_col (heap (owner t) idx) (index t)\<rparr>
      | (None, t) \<Rightarrow> t)"

definition Union_txn :: "string \<Rightarrow> string list \<Rightarrow> Txn \<Rightarrow> Txn" where
  "Union_txn column extra txn = foldl Union_step (Union_step txn column) extra"

text \<open>
  \<^verbatim>\<open>bitmap.Filter(f)\<close> keeps the set bits for which \<open>f\<close> returns true, visiting them in
  ascending order. The predicate is a Go function and may panic; the panic of the first
  row that raises one propagates.
\<close>

fun Filter_loop :: "(index \<Rightarrow> fault + bool) \<Rightarrow> index list \<Rightarrow> fault + index list" where
  "Filter_loop f [] = Inr []"
| "Filter_loop f (x # xs) =
     (case f x of
        Inl e \<Rightarrow> Inl e
      | Inr m \<Rightarrow>
          (case Filter_loop f xs of
             Inl e \<Rightarrow> Inl e
           | Inr ys \<Rightarrow> Inr (if m then x # ys else ys)))"

definition bitmap_Filter :: "(index \<Rightarrow> fault + bool) \<Rightarrow> bitmap \<Rightarrow> fault + bitmap" where
  "bitmap_Filter f bm =
     (case Filter_loop f (sorted_list_of_set bm) of
        Inl e \<Rightarrow> Inl e
      | Inr ys \<Rightarrow> Inr (set ys))"

definition WithValue :: "string \<Rightarrow> (val \<Rightarrow> fault + bool) \<Rightarrow> Txn \<Rightarrow> fault + Txn" where
  "WithValue column predicate txn =
     (case columnAt column txn of
        (Some p, t) \<Rightarrow>
          (case bitmap_Filter
                  (\<lambda>x. case Value_col (heap (owner t) p) x of
                         Some v \<Rightarrow> predicate v
                       | None \<Rightarrow> Inr False)
                  (index t) of
             Inl e \<Rightarrow> Inl e
           | Inr bm \<Rightarrow> Inr (t\<lparr>index := bm\<rparr>))
      | (None, t) \<Rightarrow> Inr t)"

definition assert_string :: "val \<Rightarrow> fault + string" where
  \<comment> \<open>The single-result type assertion \<^verbatim>\<open>v.(string)\<close>: it panics on another type.\<close>
  "assert_string v = (case v of VString s \<Rightarrow> Inr s | _ \<Rightarrow> Inl TypeAssertion)"

definition WithString :: "string \<Rightarrow> (string \<Rightarrow> bool) \<Rightarrow> Txn \<Rightarrow> fault + Txn" where
  "WithString column predicate txn =
     WithValue column
       (\<lambda>v. case assert_string v of Inl e \<Rightarrow> Inl e | Inr s \<Rightarrow> Inr (predicate s))
       txn"

subsection \<open>Reading and staging deletes\<close>

definition Count :: "Txn \<Rightarrow> int" where
  "Count txn = int (card (index txn))"

definition DeleteAt :: "index \<Rightarrow> Txn \<Rightarrow> bool \<times> Txn" where
  "DeleteAt i txn =
     (if i \<notin> index txn then (False, txn)
      else (True, txn\<lparr>deletes := insert i (deletes txn)\<rparr>))"

definition DeleteAll :: "Txn \<Rightarrow> Txn" where
  "DeleteAll txn = txn\<lparr>deletes := deletes txn \<union> index txn\<rparr>"

subsection \<open>Selectors, cursors and the update queues\<close>

text \<open>
  \<^verbatim>\<open>Selector\<close> and \<^verbatim>\<open>Cursor\<close>. Both hold a pointer to the transaction in the source;
  in the model the transaction is passed to, and returned by, every operation of a
  cursor. The field \<^verbatim>\<open>update\<close> of the cursor (an \<^verbatim>\<open>int16\<close>) is renamed, \<open>update\<close>
  being a field of \<open>updateQueue\<close>; \<open>column\<close> is \<open>None\<close> for the nil column of the
  cursor that \<^verbatim>\<open>insert\<close> builds. The selector's optional pointer to a collection
  serves selectors built outside a transaction and has no counterpart here.
\<close>

record Selector =
  idx :: index

record Cursor = Selector +
  cur_update :: int
  column :: "colref option"


definition int16 :: "nat \<Rightarrow> int" where
  \<comment> \<open>The conversion \<^verbatim>\<open>int16(i)\<close> of a Go \<^verbatim>\<open>int\<close>: it keeps the low 16 bits, signed.\<close>
  "int16 n = sint (word_of_nat n :: 16 word)"

fun queueIndex :: "string \<Rightarrow> updateQueue list \<Rightarrow> nat option" where
  \<comment> \<open>The search loop of \<^verbatim>\<open>cursorFor\<close>: the position of the first queue of that name.\<close>
  "queueIndex columnName [] = None"
| "queueIndex columnName (c # cs) =
     (if name c = columnName then Some 0 else map_option Suc (queueIndex columnName cs))"

definition cursorFor :: "string \<Rightarrow> Txn \<Rightarrow> (error + Cursor) \<times> Txn" where
  "cursorFor columnName txn =
     (case columnAt columnName txn of
        (None, t) \<Rightarrow> (Inl (ColumnDoesNotExist columnName), t)
      | (Some c, t) \<Rightarrow>
          (case queueIndex columnName (updates t) of
             Some i \<Rightarrow> (Inr \<lparr>idx = 0, cur_update = int16 i, column = Some c\<rparr>, t)
           | None \<Rightarrow>
               (Inr \<lparr>idx = 0, cur_update = int16 (length (updates t)), column = Some c\<rparr>,
                t\<lparr>updates := updates t @ [\<lparr>name = columnName, update = []\<rparr>]\<rparr>)))"

definition Cursor_Delete :: "Cursor \<Rightarrow> Txn \<Rightarrow> Txn" where
  "Cursor_Delete cur txn = txn\<lparr>deletes := insert (idx cur) (deletes txn)\<rparr>"

definition Cursor_append :: "Cursor \<Rightarrow> Update \<Rightarrow> Txn \<Rightarrow> fault + Txn" where
  \<comment> \<open>\<^verbatim>\<open>txn.updates[cur.update].update = append(txn.updates[cur.update].update, u)\<close>;
      indexing a slice out of its range panics.\<close>
  "Cursor_append cur u txn =
     (if 0 \<le> cur_update cur \<and> nat (cur_update cur) < length (updates txn)
      then let i = nat (cur_update cur); q = updates txn ! i
           in Inr (txn\<lparr>updates := (updates txn)[i := q\<lparr>update := update q @ [u]\<rparr>]\<rparr>)
      else Inl IndexOutOfRange)"

definition Cursor_Update :: "Cursor \<Rightarrow> val \<Rightarrow> Txn \<Rightarrow> fault + Txn" where
  "Cursor_Update cur v txn =
     Cursor_append cur \<lparr>Kind = UpdatePut, Index = idx cur, Value = v\<rparr> txn"

definition Cursor_Add :: "Cursor \<Rightarrow> val \<Rightarrow> Txn \<Rightarrow> fault + Txn" where
  "Cursor_Add cur amount txn =
     Cursor_append cur \<lparr>Kind = UpdateAdd, Index = idx cur, Value = amount\<rparr> txn"

fun enqueue :: "Update \<Rightarrow> string \<Rightarrow> updateQueue list \<Rightarrow> updateQueue list" where
  \<comment> \<open>The loop shared by \<^verbatim>\<open>UpdateAt\<close> and \<^verbatim>\<open>AddAt\<close>: append to the first queue of that
      name and return, or else create a new queue holding the record.\<close>
  "enqueue u columnName [] = [\<lparr>name = columnName, update = [u]\<rparr>]"
| "enqueue u columnName (c # cs) =
     (if name c = columnName then c\<lparr>update := update c @ [u]\<rparr> # cs
      else c # enqueue u columnName cs)"

definition UpdateAt :: "Cursor \<Rightarrow> string \<Rightarrow> val \<Rightarrow> Txn \<Rightarrow> Txn" where
  "UpdateAt cur columnName v txn =
     txn\<lparr>updates := enqueue \<lparr>Kind = UpdatePut, Index = idx cur, Value = v\<rparr> columnName (updates txn)\<rparr>"

definition AddAt :: "Cursor \<Rightarrow> string \<Rightarrow> val \<Rightarrow> Txn \<Rightarrow> Txn" where
  "AddAt cur columnName amount txn =
     txn\<lparr>updates := enqueue \<lparr>Kind = UpdateAdd, Index = idx cur, Value = amount\<rparr> columnName (updates txn)\<rparr>"

subsection \<open>Insert\<close>

text \<open>
  \<^verbatim>\<open>insert\<close>. The row index comes from \<^verbatim>\<open>txn.owner.next()\<close>, which lies outside the
  sources and for which the spec leaves the strategy open; the model takes the index it
  returns as the argument \<open>j\<close>. An \<^verbatim>\<open>Object\<close> is a Go map; it is given as the list of
  its entries in the order the \<^verbatim>\<open>range\<close> loop visits them. \<^verbatim>\<open>InsertWithTTL\<close> is
  \<^verbatim>\<open>insert\<close> with the deadline it computes from the clock.
\<close>

type_synonym Object = "(string \<times> val) list"

definition insert_step :: "Cursor \<Rightarrow> Txn \<Rightarrow> string \<times> val \<Rightarrow> Txn" where
  "insert_step slot txn kv =
     (case columnAt (fst kv) txn of
        (Some c, t) \<Rightarrow> UpdateAt slot (fst kv) (snd kv) t
      | (None, t) \<Rightarrow> t)"

definition insert_txn :: "index \<Rightarrow> Object \<Rightarrow> 64 word \<Rightarrow> Txn \<Rightarrow> index \<times> Txn" where
  "insert_txn j object expireAt txn =
     (let slot = \<lparr>idx = j, cur_update = 0, column = None\<rparr>;
          t1 = txn\<lparr>inserts := insert (idx slot) (inserts txn)\<rparr>;
          t2 = foldl (insert_step slot) t1 object;
          t3 = (if expireAt \<noteq> 0 then UpdateAt slot expireColumn (VInt64 expireAt) t2 else t2)
      in (idx slot, t3))"

definition Insert :: "index \<Rightarrow> Object \<Rightarrow> Txn \<Rightarrow> index \<times> Txn" where
  "Insert j object txn = insert_txn j object 0 txn"

subsection \<open>Iteration\<close>

text \<open>
  \<^verbatim>\<open>bitmap.Range\<close> visits the set bits in ascending order and stops when the callback
  returns false. Callbacks are Go functions: they may panic, and they reach the
  transaction through the selector or cursor they are handed. A selector offers reads
  only, so the callback of \<^verbatim>\<open>Select\<close> and \<^verbatim>\<open>DeleteIf\<close> is a function of the selector
  and the transaction it reads; a cursor also offers the mutators above, so the callback
  of \<^verbatim>\<open>Range\<close> returns the transaction as it has left it. The rows visited are those of
  the working bitmap when the iteration starts (no selector or cursor operation changes
  the working bitmap).
\<close>

fun Select_loop :: "(Selector \<Rightarrow> Txn \<Rightarrow> fault + bool) \<Rightarrow> index list \<Rightarrow> Txn \<Rightarrow> fault + index list" where
  "Select_loop fn [] txn = Inr []"
| "Select_loop fn (x # xs) txn =
     (case fn \<lparr>idx = x\<rparr> txn of
        Inl e \<Rightarrow> Inl e
      | Inr continue \<Rightarrow>
          (if continue
           then (case Select_loop fn xs txn of Inl e \<Rightarrow> Inl e | Inr vs \<Rightarrow> Inr (x # vs))
           else Inr [x]))"

definition Select :: "(Selector \<Rightarrow> Txn \<Rightarrow> fault + bool) \<Rightarrow> Txn \<Rightarrow> fault + index list" where
  \<comment> \<open>\<^verbatim>\<open>Select\<close> returns nothing; the model returns the rows the callback was invoked on.\<close>
  "Select fn txn = Select_loop fn (sorted_list_of_set (index txn)) txn"

fun DeleteIf_loop :: "(Selector \<Rightarrow> Txn \<Rightarrow> fault + bool) \<Rightarrow> index list \<Rightarrow> Txn \<Rightarrow> fault + Txn" where
  "DeleteIf_loop fn [] txn = Inr txn"
| "DeleteIf_loop fn (x # xs) txn =
     (case fn \<lparr>idx = x\<rparr> txn of
        Inl e \<Rightarrow> Inl e
      | Inr b \<Rightarrow>
          DeleteIf_loop fn xs (if b then txn\<lparr>deletes := insert x (deletes txn)\<rparr> else txn))"

definition DeleteIf :: "(Selector \<Rightarrow> Txn \<Rightarrow> fault + bool) \<Rightarrow> Txn \<Rightarrow> fault + Txn" where
  "DeleteIf fn txn = DeleteIf_loop fn (sorted_list_of_set (index txn)) txn"

fun Range_loop ::
  "(Cursor \<Rightarrow> Txn \<Rightarrow> fault + bool \<times> Txn) \<Rightarrow> Cursor \<Rightarrow> index list \<Rightarrow> Txn \<Rightarrow> fault + Txn" where
  "Range_loop fn cur [] txn = Inr txn"
| "Range_loop fn cur (x # xs) txn =
     (case fn (cur\<lparr>idx := x\<rparr>) txn of
        Inl e \<Rightarrow> Inl e
      | Inr (continue, t) \<Rightarrow> (if continue then Range_loop fn cur xs t else Inr t))"

definition Range_txn ::
  "string \<Rightarrow> (Cursor \<Rightarrow> Txn \<Rightarrow> fault + bool \<times> Txn) \<Rightarrow> Txn \<Rightarrow> fault + error option \<times> Txn" where
  "Range_txn columnName fn txn =
     (case cursorFor columnName txn of
        (Inl err, t) \<Rightarrow> Inr (Some err, t)
      | (Inr cur, t) \<Rightarrow>
          (case Range_loop fn cur (sorted_list_of_set (index t)) t of
             Inl e \<Rightarrow> Inl e
           | Inr t' \<Rightarrow> Inr (None, t')))"

subsection \<open>Commit and rollback\<close>

definition deletePending :: "Txn \<Rightarrow> Txn" where
  "deletePending txn =
     (if deletes txn = {} then txn
      else
        let own = owner txn;
            own1 = own\<lparr>heap := (\<lambda>r. if r \<in> set (cols_Range own)
                                       then DeleteMany (deletes txn) (heap own r)
                                       else heap own r)\<rparr>;
            own2 = own1\<lparr>fill := fill own1 - deletes txn\<rparr>
        in txn\<lparr>owner := own2, deletes := {}\<rparr>)"

definition update_column :: "bitmap \<Rightarrow> Update list \<Rightarrow> Collection \<Rightarrow> colref \<Rightarrow> Collection" where
  \<comment> \<open>The body of the inner loop of \<^verbatim>\<open>updatePending\<close> for the column \<open>v\<close>.\<close>
  "update_column ins us own v =
     (let c = heap own v;
          c1 = (if ins \<noteq> {} then Grow (Max ins) c else c)
      in own\<lparr>heap := (heap own)(v := UpdateMany us c1)\<rparr>)"

fun updatePending_loop ::
  "bitmap \<Rightarrow> updateQueue list \<Rightarrow> Collection \<Rightarrow> updateQueue list \<times> Collection" where
  "updatePending_loop ins [] own = ([], own)"
| "updatePending_loop ins (u # us) own =
     (if update u = [] then
        (case updatePending_loop ins us own of (us', own') \<Rightarrow> (u # us', own'))
      else
        (case cols_LoadWithIndex own (name u) of
           (cs, exists) \<Rightarrow>
             if \<not> exists \<or> cs = [] then
               (case updatePending_loop ins us own of (us', own') \<Rightarrow> (u # us', own'))
             else
               (case updatePending_loop ins us (foldl (update_column ins (update u)) own cs) of
                  (us', own') \<Rightarrow> (u\<lparr>update := []\<rparr> # us', own'))))"

definition updatePending :: "Txn \<Rightarrow> Txn" where
  "updatePending txn =
     (case updatePending_loop (inserts txn) (updates txn) (owner txn) of
        (us, own) \<Rightarrow> txn\<lparr>owner := own, updates := us\<rparr>)"

definition insertPending :: "Txn \<Rightarrow> Txn" where
  "insertPending txn =
     (if inserts txn \<noteq> {}
      then txn\<lparr>owner := (owner txn)\<lparr>fill := fill (owner txn) \<union> inserts txn\<rparr>, inserts := {}\<rparr>
      else txn)"

definition Commit :: "Txn \<Rightarrow> Txn" where
  "Commit txn = insertPending (updatePending (deletePending txn))"

definition Rollback :: "Txn \<Rightarrow> Txn" where
  "Rollback txn =
     txn\<lparr>deletes := {}, inserts := {},
         updates := map (\<lambda>q. q\<lparr>update := []\<rparr>) (updates txn)\<rparr>"

section \<open>Sequences of operations\<close>

text \<open>
  The mutators a \<^verbatim>\<open>Range\<close> callback can call on the cursor it is handed, and the
  callback that, at each row, looks at the cursor and the transaction, calls a list of
  them and returns whether the iteration continues.
\<close>

datatype curop =
    CurDelete
  | CurUpdate val
  | CurAdd val
  | CurUpdateAt string val
  | CurAddAt string val

fun run_curop :: "Cursor \<Rightarrow> curop \<Rightarrow> Txn \<Rightarrow> fault + Txn" where
  "run_curop cur CurDelete t = Inr (Cursor_Delete cur t)"
| "run_curop cur (CurUpdate v) t = Cursor_Update cur v t"
| "run_curop cur (CurAdd v) t = Cursor_Add cur v t"
| "run_curop cur (CurUpdateAt c v) t = Inr (UpdateAt cur c v t)"
| "run_curop cur (CurAddAt c v) t = Inr (AddAt cur c v t)"

fun run_curops :: "Cursor \<Rightarrow> curop list \<Rightarrow> Txn \<Rightarrow> fault + Txn" where
  "run_curops cur [] t = Inr t"
| "run_curops cur (a # as) t =
     (case run_curop cur a t of Inl e \<Rightarrow> Inl e | Inr t' \<Rightarrow> run_curops cur as t')"

definition cursor_callback ::
  "(Cursor \<Rightarrow> Txn \<Rightarrow> curop list \<times> bool) \<Rightarrow> Cursor \<Rightarrow> Txn \<Rightarrow> fault + bool \<times> Txn" where
  "cursor_callback script cur t =
     (case script cur t of
        (acts, continue) \<Rightarrow>
          (case run_curops cur acts t of Inl e \<Rightarrow> Inl e | Inr t' \<Rightarrow> Inr (continue, t')))"

text \<open>
  The operations of a transaction as values, and \<open>exec\<close>, which runs one: \<open>Inl\<close> is a
  panic, and otherwise the first component is the \<^verbatim>\<open>error\<close> result for the operations
  whose Go signature has one (only \<^verbatim>\<open>Range\<close> does) and \<open>None\<close> for the others. Other
  results (a count, a row index, a Boolean) are dropped: \<open>exec\<close> follows the
  transaction. \<open>OpInsert\<close> carries the row index \<^verbatim>\<open>owner.next()\<close> returns.
  The numeric filters \<^verbatim>\<open>WithFloat\<close>, \<^verbatim>\<open>WithInt\<close> and \<^verbatim>\<open>WithUint\<close> read a column
  through the numerical capability of the column implementations, which are not part of
  the sources; they are left out.
\<close>

datatype op =
    OpWith string "string list"
  | OpWithout string "string list"
  | OpUnion string "string list"
  | OpWithValue string "val \<Rightarrow> fault + bool"
  | OpWithString string "string \<Rightarrow> bool"
  | OpCount
  | OpReadAt index
  | OpDeleteAt index
  | OpDeleteIf "Selector \<Rightarrow> Txn \<Rightarrow> fault + bool"
  | OpDeleteAll
  | OpInsert index Object "64 word"
  | OpSelect "Selector \<Rightarrow> Txn \<Rightarrow> fault + bool"
  | OpRange string "Cursor \<Rightarrow> Txn \<Rightarrow> curop list \<times> bool"
  | OpCommit
  | OpRollback

fun exec :: "op \<Rightarrow> Txn \<Rightarrow> fault + error option \<times> Txn" where
  "exec (OpWith c extra) t = Inr (None, With c extra t)"
| "exec (OpWithout c extra) t = Inr (None, Without c extra t)"
| "exec (OpUnion c extra) t = Inr (None, Union_txn c extra t)"
| "exec (OpWithValue c p) t =
     (case WithValue c p t of Inl e \<Rightarrow> Inl e | Inr t' \<Rightarrow> Inr (None, t'))"
| "exec (OpWithString c p) t =
     (case WithString c p t of Inl e \<Rightarrow> Inl e | Inr t' \<Rightarrow> Inr (None, t'))"
| "exec OpCount t = Inr (None, t)"
| "exec (OpReadAt i) t = Inr (None, t)"
| "exec (OpDeleteAt i) t = Inr (None, snd (DeleteAt i t))"
| "exec (OpDeleteIf fn) t =
     (case DeleteIf fn t of Inl e \<Rightarrow> Inl e | Inr t' \<Rightarrow> Inr (None, t'))"
| "exec OpDeleteAll t = Inr (None, DeleteAll t)"
| "exec (OpInsert j object expireAt) t = Inr (None, snd (insert_txn j object expireAt t))"
| "exec (OpSelect fn) t =
     (case Select fn t of Inl e \<Rightarrow> Inl e | Inr visited \<Rightarrow> Inr (None, t))"
| "exec (OpRange c script) t = Range_txn c (cursor_callback script) t"
| "exec OpCommit t = Inr (None, Commit t)"
| "exec OpRollback t = Inr (None, Rollback t)"

fun run :: "op list \<Rightarrow> Txn \<Rightarrow> fault + Txn" where
  "run [] t = Inr t"
| "run (a # as) t =
     (case exec a t of Inl e \<Rightarrow> Inl e | Inr (err, t') \<Rightarrow> run as t')"


section \<open>Notions used in the statements\<close>

definition cache_ok :: "Txn \<Rightarrow> bool" where
  \<comment> \<open>Every entry of the column cache is the column the owner's registry holds under
      that name. \<open>aquireTxn\<close> empties the cache and \<open>columnAt\<close> only adds such entries.\<close>
  "cache_ok txn \<longleftrightarrow>
     (\<forall>v \<in> set (columns txn). cols_Load (owner txn) (cache_name v) = Some (cache_col v))"

definition registered :: "Txn \<Rightarrow> string \<Rightarrow> bool" where
  \<comment> \<open>A column of that name is registered in the owning collection.\<close>
  "registered txn c \<longleftrightarrow> cols_Load (owner txn) c \<noteq> None"

definition E :: "Txn \<Rightarrow> string \<Rightarrow> bitmap" where
  \<comment> \<open>\<open>E(c)\<close>: the existence bitmap of the column registered under the name \<open>c\<close>.\<close>
  "E txn c = (case cols_Load (owner txn) c of Some r \<Rightarrow> dom (heap (owner txn) r) | None \<Rightarrow> {})"

definition queued :: "string \<Rightarrow> Txn \<Rightarrow> Update list" where
  \<comment> \<open>The pending records of the update queue of that name (of the first one, which
      is the one \<open>enqueue\<close> and \<open>cursorFor\<close> use); empty when there is no such queue.\<close>
  "queued c txn = (case find (\<lambda>q. name q = c) (updates txn) of Some q \<Rightarrow> update q | None \<Rightarrow> [])"

definition delete_inv :: "Txn \<Rightarrow> bool" where
  "delete_inv txn \<longleftrightarrow> deletes txn \<subseteq> index txn \<union> inserts txn"





section \<open>A small collection\<close>

text \<open>
  Three live rows and two columns: \<open>name\<close> holds strings at rows 0 and 1, \<open>age\<close> holds
  integers at rows 0 and 2. \<open>people_txn\<close> is a fresh transaction acquired on it.
\<close>

definition people :: Collection where
  "people =
     \<lparr>fill = {0, 1, 2},
      cols = [(''name'', [0]), (''age'', [1])],
      heap = (\<lambda>r. if r = 0 then [0 \<mapsto> VString ''Ann'', 1 \<mapsto> VString ''Bob'']
                  else if r = 1 then [0 \<mapsto> VInt64 30, 2 \<mapsto> VInt64 41]
                  else Map.empty)\<rparr>"

definition people_txn :: Txn where
  "people_txn = aquireTxn people newTxn"

text \<open>
  Transactions reached through the operations above. \<open>staged_txn\<close> stages the
  deletion of every row and the insertion of a row at index 7, one of whose keys names
  no column. \<open>recycled_txn\<close> has deleted row 0 and committed: index 0 is free in the
  collection again, and still in the working bitmap, which a commit does not refresh.
  \<open>reinsert_txn\<close> goes on to insert a row at the free index 0 and to stage this row
  for deletion.
\<close>

definition recycled_txn :: Txn where
  "recycled_txn = Commit (snd (DeleteAt 0 people_txn))"

definition reinsert_txn :: Txn where
  "reinsert_txn =
     snd (DeleteAt 0 (snd (Insert 0 [(''name'', VString ''Zed'')] recycled_txn)))"

definition staged_txn :: Txn where
  "staged_txn = snd (insert_txn 7 [(''name'', VString ''Zed''), (''email'', VString ''z@z'')] 0 (DeleteAll people_txn))"




text \<open>
  The collections of three scenarios of the specification: the filter chain (columns
  \<open>active\<close>, \<open>adult\<close> and \<open>name\<close>), the insert into an empty collection with columns
  \<open>x\<close> and \<open>y\<close>, and the row whose column \<open>n\<close> holds 5.
\<close>

definition filter_chain :: Collection where
  "filter_chain =
     \<lparr>fill = {1, 2, 3, 4, 5},
      cols = [(''active'', [0]), (''adult'', [1]), (''name'', [2])],
      heap = (\<lambda>r. if r = 0 then [1 \<mapsto> VBool True, 2 \<mapsto> VBool True, 3 \<mapsto> VBool True,
                                  5 \<mapsto> VBool True]
                  else if r = 1 then [2 \<mapsto> VBool True, 3 \<mapsto> VBool True, 4 \<mapsto> VBool True,
                                       5 \<mapsto> VBool True]
                  else if r = 2 then [1 \<mapsto> VString ''Bob'', 2 \<mapsto> VString ''Ann'',
                                       3 \<mapsto> VString ''Cy'', 4 \<mapsto> VString ''Dan'',
                                       5 \<mapsto> VString ''Abe'']
                  else Map.empty)\<rparr>"

definition empty_xy :: Collection where
  "empty_xy = \<lparr>fill = {}, cols = [(''x'', [0]), (''y'', [1])], heap = (\<lambda>r. Map.empty)\<rparr>"

definition counter_row :: Collection where
  "counter_row =
     \<lparr>fill = {3}, cols = [(''n'', [0])],
      heap = (\<lambda>r. if r = 0 then [3 \<mapsto> VInt64 5] else Map.empty)\<rparr>"


section \<open>Auxiliary facts\<close>

subsection \<open>The column cache and \<open>With\<close>\<close>

lemma columnAt_cases:
  assumes "cache_ok t"
  obtains cs where "columnAt c t = (cols_Load (owner t) c, t\<lparr>columns := cs\<rparr>)"
    and "cache_ok (t\<lparr>columns := cs\<rparr>)"
proof (cases "find (\<lambda>v. cache_name v = c) (columns t)")
  case None
  show ?thesis
  proof (cases "cols_Load (owner t) c")
    case N: None
    have "columnAt c t = (cols_Load (owner t) c, t\<lparr>columns := columns t\<rparr>)"
      using None N by (simp add: columnAt_def)
    moreover have "cache_ok (t\<lparr>columns := columns t\<rparr>)" using assms by simp
    ultimately show ?thesis by (rule that)
  next
    case (Some r)
    let ?cs = "columns t @ [\<lparr>cache_name = c, cache_col = r\<rparr>]"
    have "columnAt c t = (cols_Load (owner t) c, t\<lparr>columns := ?cs\<rparr>)"
      using None Some by (simp add: columnAt_def)
    moreover have "cache_ok (t\<lparr>columns := ?cs\<rparr>)"
      using assms Some by (auto simp: cache_ok_def)
    ultimately show ?thesis by (rule that)
  qed
next
  case (Some v)
  then have "v \<in> set (columns t)" and "cache_name v = c"
    by (auto simp: find_Some_iff in_set_conv_nth)
  with assms have "cols_Load (owner t) c = Some (cache_col v)"
    by (auto simp: cache_ok_def)
  then have "columnAt c t = (cols_Load (owner t) c, t\<lparr>columns := columns t\<rparr>)"
    using Some by (simp add: columnAt_def)
  moreover have "cache_ok (t\<lparr>columns := columns t\<rparr>)" using assms by simp
  ultimately show ?thesis by (rule that)
qed

lemma cache_ok_index [simp]: "cache_ok (t\<lparr>index := i\<rparr>) = cache_ok t"
  by (simp add: cache_ok_def)

lemma E_columns [simp]: "E (t\<lparr>columns := cs\<rparr>) c = E t c"
  by (simp add: E_def split: option.splits)

lemma E_index [simp]: "E (t\<lparr>index := i\<rparr>) c = E t c"
  by (simp add: E_def split: option.splits)

lemma With_step_index:
  assumes "cache_ok t"
  shows "index (With_step t c) = (if registered t c then index t \<inter> E t c else {})"
    and "owner (With_step t c) = owner t"
    and "cache_ok (With_step t c)"
proof -
  obtain cs where c: "columnAt c t = (cols_Load (owner t) c, t\<lparr>columns := cs\<rparr>)"
    and ok: "cache_ok (t\<lparr>columns := cs\<rparr>)"
    using assms by (rule columnAt_cases)
  show "index (With_step t c) = (if registered t c then index t \<inter> E t c else {})"
    by (cases "cols_Load (owner t) c")
      (simp_all add: With_step_def c registered_def E_def Intersect_def)
  show "owner (With_step t c) = owner t"
    by (cases "cols_Load (owner t) c") (simp_all add: With_step_def c)
  show "cache_ok (With_step t c)"
    using ok by (cases "cols_Load (owner t) c") (simp_all add: With_step_def c)
qed

lemma registered_owner: "owner t' = owner t \<Longrightarrow> registered t' c = registered t c"
  by (simp add: registered_def)

lemma E_owner: "owner t' = owner t \<Longrightarrow> E t' c = E t c"
  by (simp add: E_def split: option.splits)

lemma With_loop_index:
  assumes "cache_ok t"
  shows "index (foldl With_step t cs) =
           (if \<forall>c \<in> set cs. registered t c then index t \<inter> (\<Inter>c \<in> set cs. E t c) else {})"
  using assms
proof (induction cs arbitrary: t)
  case Nil
  then show ?case by simp
next
  case (Cons c cs)
  note st = With_step_index [OF Cons.prems, of c]
  have "index (foldl With_step (With_step t c) cs) =
          (if \<forall>d \<in> set cs. registered (With_step t c) d
           then index (With_step t c) \<inter> (\<Inter>d \<in> set cs. E (With_step t c) d) else {})"
    by (rule Cons.IH) (rule st(3))
  then show ?case
    by (auto simp: st(1) registered_owner [OF st(2)] E_owner [OF st(2)])
qed

subsection \<open>Commit\<close>

lemma update_column_frame [simp]:
  "fill (update_column ins us own v) = fill own"
  "cols (update_column ins us own v) = cols own"
  by (simp_all add: update_column_def Let_def)

lemma foldl_update_column_frame [simp]:
  "fill (foldl (update_column ins us) own cs) = fill own"
  "cols (foldl (update_column ins us) own cs) = cols own"
  by (induction cs arbitrary: own) simp_all

lemma updatePending_loop_fill:
  "fill (snd (updatePending_loop ins us own)) = fill own"
  by (induction us arbitrary: own) (simp_all add: split_beta cols_LoadWithIndex_def split: option.splits)

lemma updatePending_loop_cols:
  "cols (snd (updatePending_loop ins us own)) = cols own"
  by (induction us arbitrary: own) (simp_all add: split_beta cols_LoadWithIndex_def split: option.splits)

lemma updatePending_frame [simp]:
  "fill (owner (updatePending t)) = fill (owner t)"
  "index (updatePending t) = index t"
  "deletes (updatePending t) = deletes t"
  "inserts (updatePending t) = inserts t"
  "columns (updatePending t) = columns t"
  using updatePending_loop_fill [of "inserts t" "updates t" "owner t"]
  by (simp_all add: updatePending_def split_beta)

lemma deletePending_frame [simp]:
  "fill (owner (deletePending t)) = fill (owner t) - deletes t"
  "index (deletePending t) = index t"
  "deletes (deletePending t) = {}"
  "inserts (deletePending t) = inserts t"
  "updates (deletePending t) = updates t"
  "columns (deletePending t) = columns t"
  by (simp_all add: deletePending_def Let_def)

lemma insertPending_frame [simp]:
  "fill (owner (insertPending t)) = fill (owner t) \<union> inserts t"
  "index (insertPending t) = index t"
  "deletes (insertPending t) = deletes t"
  "inserts (insertPending t) = {}"
  "updates (insertPending t) = updates t"
  "columns (insertPending t) = columns t"
  by (simp_all add: insertPending_def)

lemma Select_loop_all: "Select_loop (\<lambda>s u. Inr True) xs t = Inr xs"
  by (induction xs) simp_all

lemma Commit_frame:
  "fill (owner (Commit t)) = (fill (owner t) - deletes t) \<union> inserts t"
  "index (Commit t) = index t"
  "deletes (Commit t) = {}"
  "inserts (Commit t) = {}"
  "columns (Commit t) = columns t"
  by (simp_all add: Commit_def)

lemma Commit_updates: "updates t = [] \<Longrightarrow> updates (Commit t) = []"
  by (simp add: Commit_def updatePending_def)

lemma cols_Load_cols: "cols own' = cols own \<Longrightarrow> cols_Load own' c = cols_Load own c"
  by (simp add: cols_Load_def)

lemma deletePending_cols: "cols (owner (deletePending t)) = cols (owner t)"
  by (simp add: deletePending_def Let_def)

lemma updatePending_cols: "cols (owner (updatePending t)) = cols (owner t)"
  using updatePending_loop_cols [of "inserts t" "updates t" "owner t"]
  by (simp add: updatePending_def split_beta)

lemma insertPending_cols: "cols (owner (insertPending t)) = cols (owner t)"
  by (simp add: insertPending_def)

lemma Commit_cols: "cols (owner (Commit t)) = cols (owner t)"
  by (simp add: Commit_def insertPending_cols updatePending_cols deletePending_cols)

lemma Commit_owner: "cols_Load (owner (Commit t)) c = cols_Load (owner t) c"
  by (rule cols_Load_cols) (rule Commit_cols)

subsection \<open>columnAt\<close>


lemma columnAt_missing:
  assumes "cache_ok t" and "\<not> registered t c"
  shows "columnAt c t = (None, t)"
proof (cases "find (\<lambda>v. cache_name v = c) (columns t)")
  case None
  with assms(2) show ?thesis by (simp add: columnAt_def registered_def)
next
  case (Some v)
  then have "v \<in> set (columns t)" and "cache_name v = c"
    by (auto simp: find_Some_iff in_set_conv_nth)
  with assms show ?thesis by (auto simp: cache_ok_def registered_def)
qed

lemma columnAt_found:
  assumes "cache_ok t" and "registered t c"
  obtains r cs where "columnAt c t = (Some r, t\<lparr>columns := cs\<rparr>)" and "cache_ok (t\<lparr>columns := cs\<rparr>)"
proof -
  obtain cs where "columnAt c t = (cols_Load (owner t) c, t\<lparr>columns := cs\<rparr>)"
    and "cache_ok (t\<lparr>columns := cs\<rparr>)"
    using assms(1) by (rule columnAt_cases)
  moreover obtain r where "cols_Load (owner t) c = Some r"
    using assms(2) by (auto simp: registered_def)
  ultimately show ?thesis using that by simp
qed

subsection \<open>Update queues\<close>



lemma queued_columns [simp]: "queued c (t\<lparr>columns := cs\<rparr>) = queued c t"
  by (simp add: queued_def)

lemma queued_inserts [simp]: "queued c (t\<lparr>inserts := i\<rparr>) = queued c t"
  by (simp add: queued_def)

lemma UpdateAt_frame [simp]:
  "owner (UpdateAt cur c v t) = owner t"
  "index (UpdateAt cur c v t) = index t"
  "deletes (UpdateAt cur c v t) = deletes t"
  "inserts (UpdateAt cur c v t) = inserts t"
  "columns (UpdateAt cur c v t) = columns t"
  by (simp_all add: UpdateAt_def)

lemma cache_ok_UpdateAt [simp]: "cache_ok (UpdateAt cur c v t) = cache_ok t"
  by (simp add: cache_ok_def)

lemma cache_ok_inserts [simp]: "cache_ok (t\<lparr>inserts := i\<rparr>) = cache_ok t"
  by (simp add: cache_ok_def)

lemma registered_simps [simp]:
  "registered (t\<lparr>columns := cs\<rparr>) c = registered t c"
  "registered (t\<lparr>inserts := i\<rparr>) c = registered t c"
  "registered (UpdateAt cur c' v t) c = registered t c"
  by (simp_all add: registered_def)



subsection \<open>Range\<close>

lemma cursorFor_missing:
  assumes "cache_ok t" and "\<not> registered t c"
  shows "cursorFor c t = (Inl (ColumnDoesNotExist c), t)"
  using assms by (simp add: cursorFor_def columnAt_missing)

lemma cursorFor_found:
  assumes "cache_ok t" and "registered t c"
  obtains cur t' where "cursorFor c t = (Inr cur, t')"
proof -
  obtain r cs where "columnAt c t = (Some r, t\<lparr>columns := cs\<rparr>)"
    using assms by (rule columnAt_found)
  then show ?thesis
    by (cases "queueIndex c (updates (t\<lparr>columns := cs\<rparr>))") (auto simp: cursorFor_def intro: that)
qed

lemma Range_missing:
  assumes "cache_ok t" and "\<not> registered t c"
  shows "Range_txn c fn t = Inr (Some (ColumnDoesNotExist c), t)"
  using assms by (simp add: Range_txn_def cursorFor_missing)

lemma Range_found:
  assumes "cache_ok t" and "registered t c" and "Range_txn c fn t = Inr (e, t')"
  shows "e = None"
proof -
  obtain cur t1 where "cursorFor c t = (Inr cur, t1)"
    using assms(1,2) by (rule cursorFor_found)
  with assms(3) show ?thesis
    by (auto simp: Range_txn_def split: sum.splits)
qed

lemma exec_error:
  assumes "cache_ok t" and "exec a t = Inr (Some e, t')"
  shows "\<exists>c s. a = OpRange c s \<and> \<not> registered t c"
proof (cases a)
  case (OpRange c s)
  with assms Range_found [of t c "cursor_callback s" "Some e" t'] show ?thesis
    by auto
qed (use assms in \<open>auto split: sum.splits\<close>)

subsection \<open>Staged deletes and the working bitmap\<close>


lemma delete_inv_grow:
  assumes "delete_inv t" and "deletes t' \<subseteq> deletes t \<union> index t"
    and "index t \<subseteq> index t'" and "inserts t \<subseteq> inserts t'"
  shows "delete_inv t'"
  using assms unfolding delete_inv_def by blast


















subsection \<open>The column cache agrees with the registry throughout\<close>




lemma cache_ok_fields [simp]:
  "cache_ok (t\<lparr>deletes := d\<rparr>) = cache_ok t"
  "cache_ok (t\<lparr>updates := u\<rparr>) = cache_ok t"
  by (simp_all add: cache_ok_def)
















subsection \<open>What the update phase does reset\<close>

lemma updatePending_loop_resets:
  assumes "q \<in> set (fst (updatePending_loop ins us own))" and "update q \<noteq> []"
  shows "fst (cols_LoadWithIndex own (name q)) = []"
  using assms
proof (induction us arbitrary: own)
  case Nil
  then show ?case by simp
next
  case (Cons u us)
  have lw: "cols_LoadWithIndex (foldl (update_column ins (update u)) own cs) c = cols_LoadWithIndex own c" for cs c
    by (simp add: cols_LoadWithIndex_def)
  from Cons.prems Cons.IH [of own] Cons.IH [of "foldl (update_column ins (update u)) own (fst (cols_LoadWithIndex own (name u)))"]
  show ?case
    by (auto simp: split_beta lw cols_LoadWithIndex_def split: if_splits option.splits)
qed

subsection \<open>Further facts about single operations\<close>


lemma delete_inv_aquireTxn: "deletes txn = {} \<Longrightarrow> delete_inv (aquireTxn own txn)"
  by (simp add: delete_inv_def aquireTxn_def)

lemma Filter_loop_total:
  assumes "\<forall>x \<in> set xs. f x = Inr (g x)"
  shows "Filter_loop f xs = Inr (filter g xs)"
  using assms by (induction xs) simp_all

lemma bitmap_Filter_total:
  assumes "\<forall>x \<in> bm. f x = Inr (g x)"
  shows "bitmap_Filter f bm = Inr {x \<in> bm. g x}"
proof -
  have "Filter_loop f (sorted_list_of_set bm) = Inr (filter g (sorted_list_of_set bm))"
    by (rule Filter_loop_total) (use assms in simp)
  then show ?thesis by (auto simp: bitmap_Filter_def)
qed

lemma WithString_strings:
  assumes "cache_ok t" and "cols_Load (owner t) c = Some r"
    and "\<forall>x \<in> index t. \<forall>v. heap (owner t) r x = Some v \<longrightarrow> (\<exists>s. v = VString s)"
  shows "\<exists>cs. WithString c p t =
           Inr (t\<lparr>columns := cs,
                  index := {x \<in> index t. \<exists>s. heap (owner t) r x = Some (VString s) \<and> p s}\<rparr>)"
proof -
  obtain cs where c: "columnAt c t = (cols_Load (owner t) c, t\<lparr>columns := cs\<rparr>)"
    using assms(1) by (rule columnAt_cases)
  let ?f = "\<lambda>x. case Value_col (heap (owner t) r) x of
                   Some v \<Rightarrow> (case assert_string v of Inl e \<Rightarrow> Inl e | Inr s \<Rightarrow> Inr (p s))
                 | None \<Rightarrow> Inr False"
  let ?g = "\<lambda>x. \<exists>s. heap (owner t) r x = Some (VString s) \<and> p s"
  have "?f x = Inr (?g x)" if "x \<in> index t" for x
  proof (cases "heap (owner t) r x")
    case None
    then show ?thesis by (simp add: Value_col_def)
  next
    case (Some v)
    with assms(3) that obtain s where "v = VString s" by blast
    with Some show ?thesis by (simp add: Value_col_def assert_string_def)
  qed
  then have "\<forall>x \<in> index t. ?f x = Inr (?g x)" by blast
  then have "bitmap_Filter ?f (index t) = Inr {x \<in> index t. ?g x}"
    by (rule bitmap_Filter_total)
  then have "WithString c p t = Inr (t\<lparr>columns := cs, index := {x \<in> index t. ?g x}\<rparr>)"
    by (simp add: WithString_def WithValue_def c assms(2))
  then show ?thesis ..
qed

subsection \<open>Narrowing filters and the staged deletes\<close>












subsection \<open>Which rows an operation can bring into the working bitmap\<close>



















subsection \<open>Iteration visits rows of the working bitmap only\<close>











subsection \<open>The small collection, evaluated\<close>

lemma people_fill: "fill people = {0, 1, 2}"
  by (simp add: people_def)

lemma people_cols: "cols people = [(''name'', [0]), (''age'', [1])]"
  by (simp add: people_def)

lemma people_Load:
  "cols_Load people ''name'' = Some 0" "cols_Load people ''age'' = Some 1"
  "cols_Load people ''email'' = None"
  by (simp_all add: cols_Load_def people_def)

lemma people_heap:
  "heap people 0 = [0 \<mapsto> VString ''Ann'', 1 \<mapsto> VString ''Bob'']"
  "heap people (Suc 0) = [0 \<mapsto> VInt64 30, 2 \<mapsto> VInt64 41]"
  by (simp_all add: people_def)

lemma people_txn_simps:
  "owner people_txn = people" "index people_txn = {0, 1, 2}" "columns people_txn = []"
  "deletes people_txn = {}" "inserts people_txn = {}" "updates people_txn = []"
  by (simp_all add: people_txn_def aquireTxn_def newTxn_def people_def)

lemma people_txn_ok: "cache_ok people_txn"
  by (simp add: cache_ok_def people_txn_simps)

lemma people_registered:
  "registered people_txn ''name''" "registered people_txn ''age''"
  "\<not> registered people_txn ''email''" "\<not> registered people_txn expireColumn"
  by (simp_all add: registered_def people_txn_simps people_Load cols_Load_def people_def expireColumn_def)

lemma sorted_people_rows: "sorted_list_of_set {0, 1, 2 :: index} = [0, 1, 2]"
  by (simp add: word_le_nat_alt)

lemma recycled_txn_simps:
  "deletes recycled_txn = {}" "inserts recycled_txn = {}" "index recycled_txn = {0, 1, 2}"
  "fill (owner recycled_txn) = {1, 2}" "updates recycled_txn = []" "columns recycled_txn = []"
  "cols_Load (owner recycled_txn) c = cols_Load people c"
  by (auto simp: recycled_txn_def DeleteAt_def Commit_frame Commit_owner Commit_updates
      people_txn_simps people_fill)

lemma reinsert_txn_simps:
  "deletes reinsert_txn = {0}" "inserts reinsert_txn = {0}" "index reinsert_txn = {0, 1, 2}"
  "fill (owner reinsert_txn) = {1, 2}"
  by (auto simp: reinsert_txn_def DeleteAt_def Insert_def insert_txn_def Let_def insert_step_def
      columnAt_def UpdateAt_def recycled_txn_simps people_Load)

lemma staged_txn_simps:
  "deletes staged_txn = {0, 1, 2}" "inserts staged_txn = {7}" "index staged_txn = {0, 1, 2}"
  "fill (owner staged_txn) = {0, 1, 2}"
  "updates staged_txn = [\<lparr>name = ''name'', update = [\<lparr>Kind = UpdatePut, Index = 7, Value = VString ''Zed''\<rparr>]\<rparr>]"
  by (auto simp: staged_txn_def DeleteAll_def insert_txn_def Let_def insert_step_def
      columnAt_def UpdateAt_def people_txn_simps people_Load people_fill)



subsection \<open>The model on scenarios of the specification\<close>

text \<open>
  Filter chain: only rows 2 and 5 are active adults whose name starts with A.
\<close>

lemma scenario_filter_chain:
  "map_sum id index
     (WithString ''name'' (\<lambda>s. take 1 s = ''A'')
        (With ''adult'' [] (With ''active'' [] (aquireTxn filter_chain newTxn))))
   = Inr {2, 5}"
  by (auto simp: WithString_def WithValue_def With_def With_step_def columnAt_def
      bitmap_Filter_def Value_col_def assert_string_def Intersect_def cols_Load_def
      word_le_nat_alt aquireTxn_def newTxn_def filter_chain_def)

text \<open>
  Insert, then commit: the row becomes live and both columns hold its values; nothing
  stays staged.
\<close>

lemma scenario_insert_commit:
  "(let t = Commit (snd (Insert 0 [(''x'', VInt64 10), (''y'', VString ''hi'')]
                       (aquireTxn empty_xy newTxn)))
    in (fill (owner t), heap (owner t) 0 0, heap (owner t) 1 0, map update (updates t), inserts t))
   = ({0}, Some (VInt64 10), Some (VString ''hi''), [[], []], {})"
  by (simp add: Insert_def insert_txn_def insert_step_def columnAt_def UpdateAt_def Let_def
      Commit_def deletePending_def updatePending_def insertPending_def cols_LoadWithIndex_def
      cols_Load_def update_column_def UpdateMany_def apply_update_def Grow_def
      aquireTxn_def newTxn_def empty_xy_def)

text \<open>
  Add, Put, Add on one row apply in the order they were enqueued: 5 becomes 2.
\<close>

lemma scenario_add_put_order:
  "map_sum id (\<lambda>t. heap (owner t) 0 3)
     (run [OpRange ''n'' (\<lambda>cur t. ([CurAdd (VInt64 3), CurUpdate (VInt64 0), CurAdd (VInt64 2)], True)),
           OpCommit]
        (aquireTxn counter_row newTxn))
   = Inr (Some (VInt64 2))"
  by (simp add: Range_txn_def cursorFor_def columnAt_def cursor_callback_def Cursor_Update_def
      Cursor_Add_def Cursor_append_def int16_def Let_def Commit_def deletePending_def
      updatePending_def insertPending_def cols_LoadWithIndex_def cols_Load_def
      update_column_def UpdateMany_def apply_update_def Grow_def
      aquireTxn_def newTxn_def counter_row_def)

section \<open>The claims\<close>

text \<open>
  C1, as amended. \<open>Commit\<close> runs the delete, the update and the insert phase in this
  order. With \<open>D\<close> and \<open>N\<close> the deletes and inserts bitmaps before the call, the owner's
  fill bitmap afterwards is \<open>(fill - D) \<union> N\<close>: every staged insert is in it, every staged
  delete that is not also a staged insert is not, and the deletes and inserts bitmaps of
  the transaction are empty.
\<close>

theorem Commit_fill:
  "Commit t = insertPending (updatePending (deletePending t)) \<and>
   fill (owner (Commit t)) = (fill (owner t) - deletes t) \<union> inserts t \<and>
   inserts t \<subseteq> fill (owner (Commit t)) \<and>
   (deletes t - inserts t) \<inter> fill (owner (Commit t)) = {} \<and>
   deletes (Commit t) = {} \<and> inserts (Commit t) = {}"
  by (auto simp: Commit_def)

text \<open>
  On \<open>staged_txn\<close> (rows 0, 1, 2 staged for deletion, row 7 inserted) the commit leaves
  exactly row 7 live.
\<close>

theorem Commit_fill_witness:
  "fill (owner (Commit staged_txn)) = {7} \<and> deletes (Commit staged_txn) = {} \<and>
   inserts (Commit staged_txn) = {}"
  using Commit_fill [of staged_txn] by (simp add: staged_txn_simps)

text \<open>
  C1 as stated fails: a staged delete need not be absent from fill after the commit. In
  \<open>reinsert_txn\<close> index 0 was free when the insert took it (first conjunct), it is staged
  both as a delete and as an insert, and the insert phase, which runs last, makes it live.
\<close>

theorem Commit_fill_counterexample:
  "0 \<notin> fill (owner recycled_txn) \<and>
   0 \<in> deletes reinsert_txn \<and>
   \<not> deletes reinsert_txn \<inter> fill (owner (Commit reinsert_txn)) = {}"
  by (simp add: Commit_frame reinsert_txn_simps recycled_txn_simps recycled_txn_def [symmetric])

text \<open>
  C2. With a column cache that agrees with the registry, \<open>With columnName extra\<close>
  replaces the working bitmap \<open>I\<close> by \<open>I \<inter> E(columnName) \<inter> \<Inter> E(extra\<^sub>i)\<close> when every
  named column is registered; when some named column (the primary or an extra one) is
  not registered, the working bitmap becomes empty and \<open>Count\<close> returns 0, whatever rows
  the other columns hold.
\<close>

theorem With_intersects:
  assumes "cache_ok t"
  shows "((\<forall>c \<in> set (columnName # extra). registered t c) \<longrightarrow>
            index (With columnName extra t) = index t \<inter> E t columnName \<inter> (\<Inter>c \<in> set extra. E t c)) \<and>
         ((\<exists>c \<in> set (columnName # extra). \<not> registered t c) \<longrightarrow>
            index (With columnName extra t) = {} \<and> Count (With columnName extra t) = 0)"
proof -
  note st = With_step_index [OF assms, of columnName]
  have "index (With columnName extra t) =
          (if \<forall>d \<in> set extra. registered (With_step t columnName) d
           then index (With_step t columnName) \<inter> (\<Inter>d \<in> set extra. E (With_step t columnName) d) else {})"
    unfolding With_def by (rule With_loop_index) (rule st(3))
  then have "index (With columnName extra t) =
          (if \<forall>d \<in> set (columnName # extra). registered t d
           then index t \<inter> E t columnName \<inter> (\<Inter>d \<in> set extra. E t d) else {})"
    by (auto simp: st(1) registered_owner [OF st(2)] E_owner [OF st(2)])
  then show ?thesis by (auto simp: Count_def)
qed

text \<open>
  On the small collection: \<open>name\<close> and \<open>age\<close> share row 0 only, and \<open>email\<close> is not a
  column.
\<close>

theorem With_intersects_witness:
  "cache_ok people_txn \<and>
   index (With ''name'' [''age''] people_txn) = {0} \<and>
   index (With ''name'' [''email''] people_txn) = {} \<and>
   Count (With ''email'' [''name''] people_txn) = 0"
proof -
  have ok: "cache_ok people_txn"
    by (simp add: cache_ok_def people_txn_simps)
  have reg: "registered people_txn ''name''" "registered people_txn ''age''"
    "\<not> registered people_txn ''email''"
    by (simp_all add: registered_def people_txn_simps people_Load)
  have e: "E people_txn ''name'' = {0, 1}" "E people_txn ''age'' = {0, 2}"
    by (auto simp: E_def people_txn_simps people_Load people_heap)
  have "index (With ''name'' [''age''] people_txn) = {0}"
    using With_intersects [OF ok, of "''name''" "[''age'']"] reg
    by (auto simp: e people_txn_simps)
  moreover have "index (With ''name'' [''email''] people_txn) = {}"
    using With_intersects [OF ok, of "''name''" "[''email'']"] reg by simp
  moreover have "Count (With ''email'' [''name''] people_txn) = 0"
    using With_intersects [OF ok, of "''email''" "[''name'']"] reg by simp
  ultimately show ?thesis using ok by simp
qed

text \<open>
  C3 fails on the code. A \<^verbatim>\<open>Range\<close> callback calls \<^verbatim>\<open>UpdateAt\<close> with a name under
  which no column is registered; \<^verbatim>\<open>updatePending\<close> then leaves the iteration for that
  queue at its \<^verbatim>\<open>continue\<close>, before the line that resets the queue, and the record is
  still pending after \<open>Commit\<close>. (\<open>updatePending_loop_resets\<close> above: these are the only
  queues that stay non-empty; \<open>Rollback\<close> resets every queue.)
\<close>

theorem Commit_leaves_unregistered_queue:
  "map_sum id (queued ''ghost'')
     (run [OpRange ''name'' (\<lambda>cur t. ([CurUpdateAt ''ghost'' (VInt64 1)], False)), OpCommit] people_txn)
   = Inr [\<lparr>Kind = UpdatePut, Index = 0, Value = VInt64 1\<rparr>]"
  by (simp add: Range_txn_def cursorFor_def columnAt_def cursor_callback_def UpdateAt_def
      Commit_def deletePending_def updatePending_def insertPending_def cols_LoadWithIndex_def
      queued_def people_txn_simps people_Load sorted_people_rows people_cols people_fill)







text \<open>
  C6. \<open>Rollback\<close> empties deletes and inserts and the body of every update queue,
  keeps the queues' names, and leaves the working bitmap (and the owner and the column
  cache) unchanged; a second rollback changes nothing.
\<close>

theorem Rollback_spec:
  "deletes (Rollback t) = {} \<and> inserts (Rollback t) = {} \<and>
   map name (updates (Rollback t)) = map name (updates t) \<and>
   (\<forall>q \<in> set (updates (Rollback t)). update q = []) \<and>
   index (Rollback t) = index t \<and> owner (Rollback t) = owner t \<and>
   columns (Rollback t) = columns t \<and>
   Rollback (Rollback t) = Rollback t"
  by (auto simp: Rollback_def comp_def)

text \<open>
  On \<open>staged_txn\<close>, which has staged deletes, an insert and a pending update.
\<close>

theorem Rollback_spec_witness:
  "deletes (Rollback staged_txn) = {} \<and> inserts (Rollback staged_txn) = {} \<and>
   updates (Rollback staged_txn) = [\<lparr>name = ''name'', update = []\<rparr>] \<and>
   index (Rollback staged_txn) = {0, 1, 2} \<and>
   Rollback (Rollback staged_txn) = Rollback staged_txn"
  using Rollback_spec [of staged_txn] by (simp add: staged_txn_simps Rollback_def)

text \<open>
  C7 fails on the code. \<open>WithString\<close> is \<open>WithValue\<close> with the predicate
  \<^verbatim>\<open>predicate(v.(string))\<close>, and the single-result type assertion panics on a value
  that is not a string: filtering the integer column \<open>age\<close> of the small collection
  with \<open>WithString\<close> faults at row 0 instead of dropping the row. (On a column whose
  values in the working bitmap are all strings it filters without a fault:
  \<open>WithString_strings\<close> above.)
\<close>

theorem WithString_panics:
  "WithString ''age'' (\<lambda>s. True) people_txn = Inl TypeAssertion"
  by (simp add: WithString_def WithValue_def columnAt_def bitmap_Filter_def Value_col_def
      assert_string_def people_txn_simps people_Load people_heap sorted_people_rows)

text \<open>
  C8. With a column cache that agrees with the registry: when no column is registered
  under the name, \<open>Range_txn\<close> returns the error and the transaction as it was, for every
  callback (also one that would panic or change the transaction if it were called, so it
  is not called); when a column is registered, every result \<open>Range_txn\<close> returns carries
  no error. And among the operations of a transaction, an error result only comes from a
  \<^verbatim>\<open>Range\<close> over a name that is not registered.
\<close>

theorem Range_error_iff:
  assumes "cache_ok t"
  shows "(\<not> registered t c \<longrightarrow> Range_txn c fn t = Inr (Some (ColumnDoesNotExist c), t)) \<and>
         (registered t c \<longrightarrow> (\<forall>e t'. Range_txn c fn t = Inr (e, t') \<longrightarrow> e = None)) \<and>
         (\<forall>a e t'. exec a t = Inr (Some e, t') \<longrightarrow> (\<exists>c' s. a = OpRange c' s \<and> \<not> registered t c'))"
  using assms Range_missing Range_found exec_error by blast

text \<open>
  With a callback that panics whenever it is called: over the missing column \<open>email\<close> the
  error is returned; over \<open>name\<close> the callback runs and its panic propagates. With a
  callback that stops at once, \<^verbatim>\<open>Range\<close> over \<open>name\<close> returns no error.
\<close>

theorem Range_error_iff_witness:
  "cache_ok people_txn \<and>
   Range_txn ''email'' (\<lambda>cur t. Inl IndexOutOfRange) people_txn
     = Inr (Some (ColumnDoesNotExist ''email''), people_txn) \<and>
   Range_txn ''name'' (\<lambda>cur t. Inl IndexOutOfRange) people_txn = Inl IndexOutOfRange \<and>
   map_sum id fst (Range_txn ''name'' (\<lambda>cur t. Inr (False, t)) people_txn) = Inr None"
proof -
  have "Range_txn ''email'' (\<lambda>cur t. Inl IndexOutOfRange) people_txn
          = Inr (Some (ColumnDoesNotExist ''email''), people_txn)"
    using Range_error_iff [OF people_txn_ok, of "''email''" "\<lambda>cur t. Inl IndexOutOfRange"]
    by (simp add: people_registered)
  moreover have "Range_txn ''name'' (\<lambda>cur t. Inl IndexOutOfRange) people_txn = Inl IndexOutOfRange"
    by (simp add: Range_txn_def cursorFor_def columnAt_def people_txn_simps people_Load
        sorted_people_rows)
  moreover have "map_sum id fst (Range_txn ''name'' (\<lambda>cur t. Inr (False, t)) people_txn) = Inr None"
    by (simp add: Range_txn_def cursorFor_def columnAt_def people_txn_simps people_Load
        sorted_people_rows)
  ultimately show ?thesis using people_txn_ok by simp
qed

text \<open>
  C9. \<open>DeleteAt i\<close> returns true and sets bit \<open>i\<close> in deletes, changing nothing else,
  when \<open>i\<close> is in the working bitmap; otherwise it returns false and changes nothing. In
  particular an index that is in inserts but not in the working bitmap is refused.
\<close>

theorem DeleteAt_spec:
  "(i \<in> index t \<longrightarrow>
      fst (DeleteAt i t) \<and> snd (DeleteAt i t) = t\<lparr>deletes := insert i (deletes t)\<rparr>) \<and>
   (i \<notin> index t \<longrightarrow> \<not> fst (DeleteAt i t) \<and> snd (DeleteAt i t) = t) \<and>
   (i \<in> inserts t \<and> i \<notin> index t \<longrightarrow>
      \<not> fst (DeleteAt i t) \<and> deletes (snd (DeleteAt i t)) = deletes t)"
  by (simp add: DeleteAt_def)

text \<open>
  Row 1 of the small collection is deleted; row 7, inserted by \<open>staged_txn\<close> itself,
  is refused.
\<close>

theorem DeleteAt_spec_witness:
  "fst (DeleteAt 1 people_txn) \<and> deletes (snd (DeleteAt 1 people_txn)) = {1} \<and>
   7 \<in> inserts staged_txn \<and> \<not> fst (DeleteAt 7 staged_txn) \<and>
   deletes (snd (DeleteAt 7 staged_txn)) = {0, 1, 2}"
  using DeleteAt_spec [of 1 people_txn] DeleteAt_spec [of 7 staged_txn]
  by (simp add: staged_txn_simps people_txn_simps)

text \<open>
  C10. \<open>Commit\<close> does not change the working bitmap: \<open>Count\<close> is the same before and
  after, the rows that were staged for deletion are still in the working bitmap, and a
  \<^verbatim>\<open>Select\<close> that runs to the end visits all rows of the working bitmap as it was before
  the commit.
\<close>

theorem Commit_keeps_index:
  "index (Commit t) = index t \<and>
   Count (Commit t) = Count t \<and>
   deletes t \<inter> index t \<subseteq> index (Commit t) \<and>
   Select (\<lambda>s u. Inr True) (Commit t) = Inr (sorted_list_of_set (index t))"
  by (simp add: Commit_def Count_def Select_def Select_loop_all)

text \<open>
  On \<open>staged_txn\<close>: after the commit only row 7 is live, and the transaction still
  counts the three deleted rows.
\<close>

theorem Commit_keeps_index_witness:
  "index (Commit staged_txn) = {0, 1, 2} \<and> Count (Commit staged_txn) = 3 \<and>
   fill (owner (Commit staged_txn)) = {7}"
  using Commit_keeps_index [of staged_txn] by (simp add: staged_txn_simps Commit_frame Count_def)

end
